theory Spec2Isabelle
  imports Main
begin

section \<open>The page that home.js runs in\<close>

text \<open>
  home.js is one callback handed to \<open>onReady\<close>. It looks elements up in the document,
  attaches event listeners to them, configures a DataTable widget and schedules a timer.
  The model has the element objects in a store addressed by references, the document as
  a tree of references, and every effect on the browser (listeners attached, events
  dispatched, alerts, HTTP requests, widgets, timers, observed elements) as a field of
  the page state.
\<close>

type_synonym ref = nat

text \<open>A \<open>File\<close> of a \<open>FileList\<close>: its \<open>name\<close> and its MIME \<open>type\<close>.\<close>

record js_file =
  file_name :: string
  file_type :: string

text \<open>
  The properties of an element object that the script reads or writes. \<open>id_attr\<close> is
  \<open>id\<close>; \<open>style\<close> maps a property of the inline style to its value, the empty string
  for a property that is not set; \<open>files\<close> is the \<open>FileList\<close> of a file input, which the
  script reads from the target of a \<open>change\<close> event only.
\<close>

record element =
  localName :: string
  id_attr :: string
  classList :: "string list"
  style :: "string \<Rightarrow> string"
  textContent :: string
  files :: "js_file list"

text \<open>The document tree: an element and its child elements, in document order.\<close>

datatype node = Elem ref "node list"

datatype simple_selector = TagSel string | IdSel string | ClassSel string

text \<open>
  A selector is a chain of compound selectors joined by the descendant combinator:
  \<open>#csvTableContainer table\<close> is \<open>[[IdSel ''csvTableContainer''], [TagSel ''table'']]\<close>
  and \<open>.btn.large\<close> is \<open>[[ClassSel ''btn'', ClassSel ''large'']]\<close>.
\<close>

type_synonym selector = "simple_selector list list"

text \<open>
  The JSON value that jQuery hands to the \<open>success\<close> callback. The callback tests a number
  only against zero, so numbers are integers here.
\<close>

datatype json =
    JNull
  | JBool bool
  | JNum int
  | JStr string
  | JArr "json list"
  | JObj "(string \<times> json) list"

datatype js_error = TypeError

datatype response = Failure | Success json

record ajax_settings =
  url :: string
  http_method :: string
  dataType :: string

record paginate_language =
  paginate_first :: string
  paginate_last :: string
  paginate_next :: string
  paginate_previous :: string

record language =
  lang_search :: string
  lang_lengthMenu :: string
  lang_info :: string
  lang_infoEmpty :: string
  lang_infoFiltered :: string
  lang_paginate :: paginate_language

record column_def =
  targets :: string
  defaultContent :: string

datatype init_callback = CenterColumnHeaders

text \<open>
  The option object given to \<open>DataTable\<close>. An option that one of the two literals of
  the script leaves out is \<open>None\<close> there.
\<close>

record datatable_options =
  serverSide :: "bool option"
  processing :: "bool option"
  ajax_source :: "string option"
  pageLength :: nat
  lengthMenu :: "nat list"
  autoWidth :: bool
  responsive :: bool
  columns :: "json option"
  columnDefs :: "column_def list option"
  table_language :: language
  dom_layout :: string
  initComplete :: "init_callback option"

text \<open>
  A listener is a closure of the script together with the element it was attached to;
  the constructor fixes the event type. The references are the variables the closure
  captured: \<open>ChangeListener fileInput fileText fileLabel\<close>,
  \<open>DropListener fileLabel fileInput\<close>.
\<close>

datatype listener =
    ChangeListener ref ref ref
  | DragoverListener ref
  | DragleaveListener ref
  | DropListener ref ref
  | ClickListener ref

datatype timer_callback = ClearTransform ref

record event =
  target :: ref
  dataTransfer :: "js_file list"
  cancelable :: bool
  defaultPrevented :: bool

record page =
  document :: node
  heap :: "ref \<Rightarrow> element"
  listeners :: "listener list"
  dispatched :: "(ref \<times> string) list"
  alerts :: "string list"
  requests :: "ajax_settings list"
  widgets :: "(ref \<times> datatable_options) list"
  clock :: nat
  timers :: "(nat \<times> timer_callback) list"
  observed :: "ref list"

section \<open>The DOM interface\<close>

text \<open>Every element of the tree in document order, each with its ancestors, nearest first.\<close>

fun walk :: "ref list \<Rightarrow> node \<Rightarrow> (ref \<times> ref list) list" where
  "walk anc (Elem r cs) = (r, anc) # concat (map (walk (r # anc)) cs)"

fun matches_simple :: "element \<Rightarrow> simple_selector \<Rightarrow> bool" where
  "matches_simple e (TagSel t) = (localName e = t)"
| "matches_simple e (IdSel i) = (id_attr e = i)"
| "matches_simple e (ClassSel c) = (c \<in> set (classList e))"

definition matches_compound :: "(ref \<Rightarrow> element) \<Rightarrow> ref \<Rightarrow> simple_selector list \<Rightarrow> bool" where
  "matches_compound h r c = list_all (matches_simple (h r)) c"

text \<open>The remaining compounds, innermost first, are matched up the chain of ancestors.\<close>

fun matches_ancestors :: "(ref \<Rightarrow> element) \<Rightarrow> simple_selector list list \<Rightarrow> ref list \<Rightarrow> bool" where
  "matches_ancestors h [] anc = True"
| "matches_ancestors h (c # cs) [] = False"
| "matches_ancestors h (c # cs) (a # as) =
     ((matches_compound h a c \<and> matches_ancestors h cs as) \<or> matches_ancestors h (c # cs) as)"

definition matches :: "(ref \<Rightarrow> element) \<Rightarrow> selector \<Rightarrow> ref \<times> ref list \<Rightarrow> bool" where
  "matches h sel x =
     (case rev sel of
        [] \<Rightarrow> False
      | c # cs \<Rightarrow> matches_compound h (fst x) c \<and> matches_ancestors h cs (snd x))"

definition querySelectorAll :: "page \<Rightarrow> selector \<Rightarrow> ref list" where
  "querySelectorAll s sel = map fst (filter (matches (heap s) sel) (walk [] (document s)))"

definition querySelector :: "page \<Rightarrow> selector \<Rightarrow> ref option" where
  "querySelector s sel =
     (case querySelectorAll s sel of [] \<Rightarrow> None | r # _ \<Rightarrow> Some r)"

definition getElementById :: "page \<Rightarrow> string \<Rightarrow> ref option" where
  "getElementById s i = querySelector s [[IdSel i]]"

text \<open>\<open>scope.querySelector(sel)\<close>: the first descendant of \<open>scope\<close> that matches.\<close>

definition element_querySelector :: "page \<Rightarrow> ref \<Rightarrow> selector \<Rightarrow> ref option" where
  "element_querySelector s scope sel =
     (case filter (\<lambda>x. scope \<in> set (snd x) \<and> matches (heap s) sel x) (walk [] (document s)) of
        [] \<Rightarrow> None
      | x # _ \<Rightarrow> Some (fst x))"

definition parentElement :: "page \<Rightarrow> ref \<Rightarrow> ref option" where
  "parentElement s r =
     (case filter (\<lambda>x. fst x = r) (walk [] (document s)) of
        [] \<Rightarrow> None
      | x # _ \<Rightarrow> (case snd x of [] \<Rightarrow> None | p # _ \<Rightarrow> Some p))"

text \<open>\<open>inside s r a\<close>: the element \<open>r\<close> lies inside \<open>a\<close>, that is, \<open>a\<close> is an ancestor of \<open>r\<close>.\<close>

definition inside :: "page \<Rightarrow> ref \<Rightarrow> ref \<Rightarrow> bool" where
  "inside s r a = (\<exists>x \<in> set (walk [] (document s)). fst x = r \<and> a \<in> set (snd x))"

definition update_element :: "ref \<Rightarrow> (element \<Rightarrow> element) \<Rightarrow> page \<Rightarrow> page" where
  "update_element r f s = s\<lparr>heap := (heap s)(r := f (heap s r))\<rparr>"

text \<open>\<open>DOMTokenList.add\<close> and \<open>DOMTokenList.remove\<close>.\<close>

definition classList_add :: "ref \<Rightarrow> string \<Rightarrow> page \<Rightarrow> page" where
  "classList_add r c s =
     update_element r (\<lambda>e. e\<lparr>classList := (if c \<in> set (classList e) then classList e else classList e @ [c])\<rparr>) s"

definition classList_remove :: "ref \<Rightarrow> string \<Rightarrow> page \<Rightarrow> page" where
  "classList_remove r c s = update_element r (\<lambda>e. e\<lparr>classList := removeAll c (classList e)\<rparr>) s"

definition set_style :: "ref \<Rightarrow> string \<Rightarrow> string \<Rightarrow> page \<Rightarrow> page" where
  "set_style r p v s = update_element r (\<lambda>e. e\<lparr>style := (style e)(p := v)\<rparr>) s"

definition set_files :: "ref \<Rightarrow> js_file list \<Rightarrow> page \<Rightarrow> page" where
  "set_files r fs s = update_element r (\<lambda>e. e\<lparr>files := fs\<rparr>) s"

text \<open>
  Assigning \<open>textContent\<close> replaces the children of the element by one text node, so the
  elements below it leave the document; their objects stay in the store.
\<close>

fun remove_children :: "ref \<Rightarrow> node \<Rightarrow> node" where
  "remove_children r (Elem q cs) =
     (if q = r then Elem q [] else Elem q (map (remove_children r) cs))"

definition set_textContent :: "ref \<Rightarrow> string \<Rightarrow> page \<Rightarrow> page" where
  "set_textContent r v s =
     (update_element r (\<lambda>e. e\<lparr>textContent := v\<rparr>) s)\<lparr>document := remove_children r (document s)\<rparr>"

definition addEventListener :: "listener \<Rightarrow> page \<Rightarrow> page" where
  "addEventListener l s = s\<lparr>listeners := listeners s @ [l]\<rparr>"

text \<open>\<open>preventDefault\<close> marks a cancelable event and does nothing to any other.\<close>

definition preventDefault :: "event \<Rightarrow> event" where
  "preventDefault e = (if cancelable e then e\<lparr>defaultPrevented := True\<rparr> else e)"

definition alert :: "string \<Rightarrow> page \<Rightarrow> page" where
  "alert msg s = s\<lparr>alerts := alerts s @ [msg]\<rparr>"

definition endsWith :: "string \<Rightarrow> string \<Rightarrow> bool" where
  "endsWith s suffix = (take (length suffix) (rev s) = rev suffix)"

text \<open>\<open>setTimeout\<close>: the callback is due \<open>delay\<close> milliseconds after the present time.\<close>

definition setTimeout :: "timer_callback \<Rightarrow> nat \<Rightarrow> page \<Rightarrow> page" where
  "setTimeout cb delay s = s\<lparr>timers := timers s @ [(clock s + delay, cb)]\<rparr>"

text \<open>\<open>$.ajax(settings)\<close> issues the request; the response comes later.\<close>

definition jq_ajax :: "ajax_settings \<Rightarrow> page \<Rightarrow> page" where
  "jq_ajax settings s = s\<lparr>requests := requests s @ [settings]\<rparr>"

text \<open>
  \<open>$(...).DataTable(options)\<close> initialises the widget on each element of the jQuery
  set, which for an element and for an id selector has at most one element. The widget
  is a library: the page records on which element and with which options it was
  initialised, and not what the library then does to the document.
\<close>

definition DataTable :: "ref option \<Rightarrow> datatable_options \<Rightarrow> page \<Rightarrow> page" where
  "DataTable sel opts s =
     (case sel of None \<Rightarrow> s | Some t \<Rightarrow> s\<lparr>widgets := widgets s @ [(t, opts)]\<rparr>)"

section \<open>The values of JavaScript that the success callback tests\<close>

text \<open>The truth value of a JSON value in a condition.\<close>

fun truthy :: "json \<Rightarrow> bool" where
  "truthy JNull = False"
| "truthy (JBool b) = b"
| "truthy (JNum n) = (n \<noteq> 0)"
| "truthy (JStr s) = (s \<noteq> [])"
| "truthy (JArr xs) = True"
| "truthy (JObj kvs) = True"

text \<open>
  \<open>json.columns\<close>: reading a property of \<open>null\<close> throws; an object has the property of
  its last member of that name; no other value has a property \<open>columns\<close>. \<open>None\<close> is
  \<open>undefined\<close>.
\<close>

fun get_columns :: "json \<Rightarrow> js_error + json option" where
  "get_columns JNull = Inl TypeError"
| "get_columns (JObj kvs) = Inr (map_of (rev kvs) ''columns'')"
| "get_columns _ = Inr None"

text \<open>\<open>v.length\<close> of a truthy value.\<close>

fun get_length :: "json \<Rightarrow> json option" where
  "get_length (JArr xs) = Some (JNum (int (length xs)))"
| "get_length (JStr s) = Some (JNum (int (length s)))"
| "get_length (JObj kvs) = map_of (rev kvs) ''length''"
| "get_length _ = None"

section \<open>home.js\<close>

subsection \<open>The file input (lines 11 to 68)\<close>

text \<open>
  The \<open>change\<close> listener of \<open>fileInput\<close> (lines 16 to 40), in two parts: what it does to
  the label and its text when a file is selected (lines 19 to 24), and the update of the
  file info section (lines 27 to 33), which looks its elements up after that.
\<close>

definition show_selected :: "ref \<Rightarrow> ref \<Rightarrow> js_file \<Rightarrow> page \<Rightarrow> page" where
  "show_selected fileText fileLabel file s =
     set_style fileLabel ''background'' ''var(--success-light)''
       (set_style fileLabel ''borderColor'' ''var(--success)''
         (classList_add fileLabel ''file-selected''
           (set_textContent fileText (file_name file) s)))"

definition update_file_info :: "js_file \<Rightarrow> page \<Rightarrow> page" where
  "update_file_info file s =
     (case querySelector s [[ClassSel ''file-info'']] of
        None \<Rightarrow> s
      | Some fileInfo \<Rightarrow>
          (case element_querySelector s fileInfo [[ClassSel ''filename-text'']] of
             None \<Rightarrow> s
           | Some filenameText \<Rightarrow> set_textContent filenameText (file_name file) s))"

definition change_handler :: "ref \<Rightarrow> ref \<Rightarrow> event \<Rightarrow> page \<Rightarrow> page" where
  "change_handler fileText fileLabel e s =
     (case files (heap s (target e)) of
        file # _ \<Rightarrow> update_file_info file (show_selected fileText fileLabel file s)
      | [] \<Rightarrow>
          set_style fileLabel ''background'' ''var(--input-bg)''
            (set_style fileLabel ''borderColor'' ''var(--primary)''
              (classList_remove fileLabel ''file-selected''
                (set_textContent fileText ''Choose CSV File'' s))))"

text \<open>Lines 43 to 46 and 48 to 51.\<close>

definition dragover_handler :: "ref \<Rightarrow> event \<Rightarrow> page \<Rightarrow> event \<times> page" where
  "dragover_handler fileLabel e s = (preventDefault e, classList_add fileLabel ''drag-over'' s)"

definition dragleave_handler :: "ref \<Rightarrow> event \<Rightarrow> page \<Rightarrow> event \<times> page" where
  "dragleave_handler fileLabel e s = (preventDefault e, classList_remove fileLabel ''drag-over'' s)"

text \<open>
  \<open>fileInput.dispatchEvent(new Event('change'))\<close>: the new event is not cancelable and
  carries no files; its target is the element it is dispatched on. The \<open>change\<close>
  listeners attached to the target run in the order in which they were attached.
\<close>

fun run_change :: "event \<Rightarrow> listener \<Rightarrow> page \<Rightarrow> page" where
  "run_change e (ChangeListener t fileText fileLabel) s =
     (if t = target e then change_handler fileText fileLabel e s else s)"
| "run_change e _ s = s"

definition new_Event :: "ref \<Rightarrow> event" where
  "new_Event t = \<lparr>target = t, dataTransfer = [], cancelable = False, defaultPrevented = False\<rparr>"

definition dispatch_change :: "ref \<Rightarrow> page \<Rightarrow> page" where
  "dispatch_change t s =
     fold (run_change (new_Event t)) (listeners s) (s\<lparr>dispatched := dispatched s @ [(t, ''change'')]\<rparr>)"

text \<open>The \<open>drop\<close> listener of \<open>fileLabel\<close> (lines 53 to 67).\<close>

definition drop_handler :: "ref \<Rightarrow> ref \<Rightarrow> event \<Rightarrow> page \<Rightarrow> event \<times> page" where
  "drop_handler fileInput fileLabel e s =
     (let s1 = classList_remove fileLabel ''drag-over'' s
      in case dataTransfer e of
           [] \<Rightarrow> (preventDefault e, s1)
         | file # _ \<Rightarrow>
             if file_type file = ''text/csv'' \<or> endsWith (file_name file) ''.csv''
             then (preventDefault e, dispatch_change fileInput (set_files fileInput (dataTransfer e) s1))
             else (preventDefault e, alert ''Please select a CSV file.'' s1))"

definition file_input_section :: "page \<Rightarrow> page" where
  "file_input_section s =
     (case getElementById s ''csvFileInput'' of
        None \<Rightarrow> s
      | Some fileInput \<Rightarrow>
          (case querySelector s [[ClassSel ''file-input-label'']] of
             None \<Rightarrow> s
           | Some fileLabel \<Rightarrow>
               (case querySelector s [[ClassSel ''file-text'']] of
                  None \<Rightarrow> s
                | Some fileText \<Rightarrow>
                    addEventListener (DropListener fileLabel fileInput)
                      (addEventListener (DragleaveListener fileLabel)
                        (addEventListener (DragoverListener fileLabel)
                          (addEventListener (ChangeListener fileInput fileText fileLabel) s))))))"

subsection \<open>The DataTable (lines 71 to 137)\<close>

definition table_language_strings :: language where
  "table_language_strings =
     \<lparr>lang_search = ''Search:'',
      lang_lengthMenu = ''Show _MENU_ entries'',
      lang_info = ''Showing _START_ to _END_ of _TOTAL_ entries'',
      lang_infoEmpty = ''Showing 0 to 0 of 0 entries'',
      lang_infoFiltered = ''(filtered from _MAX_ total entries)'',
      lang_paginate =
        \<lparr>paginate_first = ''First'', paginate_last = ''Last'',
         paginate_next = ''Next'', paginate_previous = ''Previous''\<rparr>\<rparr>"

definition layout :: string where
  \<open>layout = ''<"top"lf>rt<"bottom"ip><"clear">''\<close>

text \<open>The options of the widget on a table rendered by the server (lines 74 to 101).\<close>

definition prerendered_options :: datatable_options where
  "prerendered_options =
     \<lparr>serverSide = None, processing = None, ajax_source = None,
      pageLength = 5, lengthMenu = [5, 10, 20, 50],
      autoWidth = False, responsive = True,
      columns = None, columnDefs = None,
      table_language = table_language_strings,
      dom_layout = layout,
      initComplete = Some CenterColumnHeaders\<rparr>"

text \<open>The options of the widget fed by the server (lines 109 to 133).\<close>

definition server_options :: "json \<Rightarrow> datatable_options" where
  "server_options cols =
     \<lparr>serverSide = Some True, processing = Some True, ajax_source = Some ''/data'',
      pageLength = 5, lengthMenu = [5, 10, 20, 50],
      autoWidth = False, responsive = True,
      columns = Some cols,
      columnDefs = Some [\<lparr>targets = ''_all'', defaultContent = ''''\<rparr>],
      table_language = table_language_strings,
      dom_layout = layout,
      initComplete = None\<rparr>"

definition data_request :: ajax_settings where
  "data_request = \<lparr>url = ''/data'', http_method = ''GET'', dataType = ''json''\<rparr>"

text \<open>
  The \<open>success\<close> callback (lines 107 to 134). \<open>!json.columns\<close> holds of \<open>undefined\<close> and of
  every value that is not truthy.
\<close>

definition ajax_success :: "json \<Rightarrow> page \<Rightarrow> js_error + page" where
  "ajax_success json s =
     (case get_columns json of
        Inl err \<Rightarrow> Inl err
      | Inr cols \<Rightarrow>
          (case cols of
             None \<Rightarrow> Inr s
           | Some c \<Rightarrow>
               if \<not> truthy c \<or> get_length c = Some (JNum 0) then Inr s
               else Inr (DataTable (getElementById s ''csvTable'') (server_options c) s)))"

text \<open>
  The request was made without an \<open>error\<close> callback: a failed request, or a body that is
  not JSON, runs no code of the script.
\<close>

definition ajax_complete :: "response \<Rightarrow> page \<Rightarrow> js_error + page" where
  "ajax_complete resp s = (case resp of Failure \<Rightarrow> Inr s | Success json \<Rightarrow> ajax_success json s)"

text \<open>Line 71: \<open>querySelector(...) || getElementById(...)\<close>.\<close>

definition tableEl :: "page \<Rightarrow> ref option" where
  "tableEl s =
     (case querySelector s [[IdSel ''csvTableContainer''], [TagSel ''table'']] of
        Some t \<Rightarrow> Some t
      | None \<Rightarrow> getElementById s ''csvTable'')"

text \<open>Line 73: \<open>tableEl.parentElement && tableEl.parentElement.id === "csvTableContainer"\<close>.\<close>

definition in_container :: "page \<Rightarrow> ref \<Rightarrow> bool" where
  "in_container s t =
     (case parentElement s t of
        None \<Rightarrow> False
      | Some p \<Rightarrow> id_attr (heap s p) = ''csvTableContainer'')"

definition datatable_section :: "page \<Rightarrow> page" where
  "datatable_section s =
     (case tableEl s of
        None \<Rightarrow> s
      | Some t \<Rightarrow>
          if in_container s t
          then DataTable (Some t) prerendered_options s
          else jq_ajax data_request s)"

subsection \<open>The action button (lines 140 to 149)\<close>

text \<open>\<open>this\<close> is the element the listener is attached to.\<close>

definition click_handler :: "ref \<Rightarrow> event \<Rightarrow> page \<Rightarrow> page" where
  "click_handler this e s =
     setTimeout (ClearTransform this) 150 (set_style this ''transform'' ''scale(0.98)'' s)"

fun run_timer :: "timer_callback \<Rightarrow> page \<Rightarrow> page" where
  "run_timer (ClearTransform this) s = set_style this ''transform'' '''' s"

text \<open>
  The passing of \<open>d\<close> milliseconds with no event: every timer that is due by then runs,
  earliest first.
\<close>

definition elapse :: "nat \<Rightarrow> page \<Rightarrow> page" where
  "elapse d s =
     (let now = clock s + d;
          due = sort_key fst (filter (\<lambda>t. fst t \<le> now) (timers s));
          later = filter (\<lambda>t. \<not> fst t \<le> now) (timers s)
      in fold (\<lambda>t. run_timer (snd t)) due (s\<lparr>clock := now, timers := later\<rparr>))"

definition button_section :: "page \<Rightarrow> page" where
  "button_section s =
     (case querySelector s [[ClassSel ''btn'', ClassSel ''large'']] of
        None \<Rightarrow> s
      | Some actionButton \<Rightarrow> addEventListener (ClickListener actionButton) s)"

subsection \<open>The stat cards (lines 152 to 165)\<close>

definition observer_callback :: "(ref \<times> bool) list \<Rightarrow> page \<Rightarrow> page" where
  "observer_callback entries s =
     fold (\<lambda>entry s'. if snd entry then set_style (fst entry) ''animation'' ''slideInUp 0.6s ease-out'' s' else s')
       entries s"

definition stat_cards_section :: "page \<Rightarrow> page" where
  "stat_cards_section s =
     (let statCards = querySelectorAll s [[ClassSel ''stat-card'']]
      in if length statCards > 0 then s\<lparr>observed := observed s @ statCards\<rparr> else s)"

subsection \<open>The callback given to onReady (lines 9 to 166)\<close>

definition ready :: "page \<Rightarrow> page" where
  "ready s = stat_cards_section (button_section (datatable_section (file_input_section s)))"

section \<open>What the specification says, in its own words\<close>

text \<open>
  The initialisation of the DataTable as the specification describes it: a table whose
  parent element has the id \<open>csvTableContainer\<close> gets the widget and no request is
  made; otherwise, when an element with the id \<open>csvTable\<close> exists, the request is made;
  otherwise nothing happens.
\<close>

definition spec_prerendered_table :: "page \<Rightarrow> ref option" where
  "spec_prerendered_table s =
     (case filter (\<lambda>x. localName (heap s (fst x)) = ''table'' \<and> in_container s (fst x))
             (walk [] (document s)) of
        [] \<Rightarrow> None
      | x # _ \<Rightarrow> Some (fst x))"

definition spec_datatable_section :: "page \<Rightarrow> page" where
  "spec_datatable_section s =
     (case spec_prerendered_table s of
        Some t \<Rightarrow> DataTable (Some t) prerendered_options s
      | None \<Rightarrow>
          (case getElementById s ''csvTable'' of
             Some t \<Rightarrow> jq_ajax data_request s
           | None \<Rightarrow> s))"

text \<open>
  The response as the specification describes the good one: the request succeeded and
  the JSON has a \<open>columns\<close> field that is a non-empty array.
\<close>

fun spec_nonempty_array :: "json option \<Rightarrow> bool" where
  "spec_nonempty_array (Some (JArr (c # cs))) = True"
| "spec_nonempty_array _ = False"

fun spec_good_response :: "response \<Rightarrow> bool" where
  "spec_good_response (Success (JObj kvs)) = spec_nonempty_array (map_of (rev kvs) ''columns'')"
| "spec_good_response _ = False"

text \<open>The responses of the contract: an object whose \<open>columns\<close>, when present, is an array.\<close>

fun columns_absent_or_array :: "json \<Rightarrow> bool" where
  "columns_absent_or_array (JObj kvs) =
     (case map_of (rev kvs) ''columns'' of None \<Rightarrow> True | Some (JArr cs) \<Rightarrow> True | Some _ \<Rightarrow> False)"
| "columns_absent_or_array _ = False"

text \<open>
  A drag interaction is a sequence of \<open>dragover\<close>, \<open>dragleave\<close> and \<open>drop\<close> events on the
  label, each handled by the listener of its type.
\<close>

datatype drag_event = Dragover event | Dragleave event | Drop event

fun drag_step :: "ref \<Rightarrow> ref \<Rightarrow> drag_event \<Rightarrow> page \<Rightarrow> page" where
  "drag_step fileInput fileLabel (Dragover e) s = snd (dragover_handler fileLabel e s)"
| "drag_step fileInput fileLabel (Dragleave e) s = snd (dragleave_handler fileLabel e s)"
| "drag_step fileInput fileLabel (Drop e) s = snd (drop_handler fileInput fileLabel e s)"

fun ends_drag :: "drag_event \<Rightarrow> bool" where
  "ends_drag (Dragover e) = False"
| "ends_drag (Dragleave e) = True"
| "ends_drag (Drop e) = True"

section \<open>Example pages and events\<close>

definition new_element :: "string \<Rightarrow> string \<Rightarrow> string list \<Rightarrow> element" where
  "new_element tag i cs =
     \<lparr>localName = tag, id_attr = i, classList = cs, style = (\<lambda>p. []), textContent = [], files = []\<rparr>"

definition new_page :: "node \<Rightarrow> (ref \<Rightarrow> element) \<Rightarrow> page" where
  "new_page d h =
     \<lparr>document = d, heap = h, listeners = [], dispatched = [], alerts = [], requests = [],
      widgets = [], clock = 0, timers = [], observed = []\<rparr>"

text \<open>
  A page with the upload form, the file info section, a table rendered by the server
  inside its container, the action button and one stat card.
\<close>

definition home_page :: page where
  "home_page =
     new_page
       (Elem 0 [Elem 1 [Elem 2 [], Elem 3 []], Elem 4 [Elem 5 []], Elem 6 [Elem 7 []],
                Elem 8 [], Elem 9 []])
       ((\<lambda>r. new_element ''div'' [] [])
         (0 := new_element ''body'' [] [],
          1 := new_element ''label'' [] [''file-input-label''],
          2 := new_element ''input'' ''csvFileInput'' [],
          3 := new_element ''span'' [] [''file-text''],
          4 := new_element ''div'' [] [''file-info''],
          5 := new_element ''span'' [] [''filename-text''],
          6 := new_element ''div'' ''csvTableContainer'' [],
          7 := new_element ''table'' [] [],
          8 := new_element ''button'' [] [''btn'', ''large''],
          9 := new_element ''div'' [] [''stat-card'']))"

text \<open>A page whose only content is an empty table with the id \<open>csvTable\<close>, outside any container.\<close>

definition ajax_page :: page where
  "ajax_page =
     new_page (Elem 0 [Elem 1 [Elem 2 []]])
       ((\<lambda>r. new_element ''div'' [] [])
         (0 := new_element ''body'' [] [],
          1 := new_element ''div'' [] [''table-wrap''],
          2 := new_element ''table'' ''csvTable'' []))"

text \<open>A page whose table sits in a wrapper inside the container and has no id.\<close>

definition wrapped_page :: page where
  "wrapped_page =
     new_page (Elem 0 [Elem 1 [Elem 2 [Elem 3 []]]])
       ((\<lambda>r. new_element ''div'' [] [])
         (0 := new_element ''body'' [] [],
          1 := new_element ''div'' ''csvTableContainer'' [],
          2 := new_element ''div'' [] [''table-responsive''],
          3 := new_element ''table'' [] []))"

text \<open>A page with the label and its text but no file input.\<close>

definition no_input_page :: page where
  "no_input_page =
     new_page (Elem 0 [Elem 1 [Elem 3 []]])
       ((\<lambda>r. new_element ''div'' [] [])
         (0 := new_element ''body'' [] [],
          1 := new_element ''label'' [] [''file-input-label''],
          3 := new_element ''span'' [] [''file-text'']))"

text \<open>A page whose file info section sits inside the \<open>.file-text\<close> element.\<close>

definition nested_info_page :: page where
  "nested_info_page =
     new_page (Elem 0 [Elem 1 [Elem 2 [], Elem 3 [Elem 4 [Elem 5 []]]]])
       ((\<lambda>r. new_element ''div'' [] [])
         (0 := new_element ''body'' [] [],
          1 := new_element ''label'' [] [''file-input-label''],
          2 := new_element ''input'' ''csvFileInput'' [],
          3 := new_element ''span'' [] [''file-text''],
          4 := new_element ''span'' [] [''file-info''],
          5 := new_element ''span'' [] [''filename-text'']))"

definition csv_file :: js_file where
  "csv_file = \<lparr>file_name = ''data.csv'', file_type = ''text/csv''\<rparr>"

definition csv_by_name :: js_file where
  "csv_by_name = \<lparr>file_name = ''export.csv'', file_type = ''application/vnd.ms-excel''\<rparr>"

definition png_file :: js_file where
  "png_file = \<lparr>file_name = ''chart.png'', file_type = ''image/png''\<rparr>"

definition drag_of :: "ref \<Rightarrow> js_file list \<Rightarrow> event" where
  "drag_of t fs = \<lparr>target = t, dataTransfer = fs, cancelable = True, defaultPrevented = False\<rparr>"

text \<open>A response of the server with the given \<open>columns\<close>.\<close>

definition columns_response :: "json \<Rightarrow> response" where
  "columns_response cols = Success (JObj [(''draw'', JNum 1), (''columns'', cols)])"

definition click_of :: "ref \<Rightarrow> event" where
  "click_of t = \<lparr>target = t, dataTransfer = [], cancelable = True, defaultPrevented = False\<rparr>"

section \<open>Properties of the DOM interface\<close>

lemmas dom_defs =
  update_element_def classList_add_def classList_remove_def set_style_def set_files_def
  set_textContent_def addEventListener_def alert_def setTimeout_def jq_ajax_def

lemma endsWith_iff: "endsWith s suffix \<longleftrightarrow> (\<exists>p. s = p @ suffix)"
proof
  assume "endsWith s suffix"
  then have "take (length suffix) (rev s) = rev suffix"
    by (simp add: endsWith_def)
  then have "rev s = rev suffix @ drop (length suffix) (rev s)"
    by (metis append_take_drop_id)
  then have "s = rev (drop (length suffix) (rev s)) @ suffix"
    by (metis rev_append rev_rev_ident)
  then show "\<exists>p. s = p @ suffix" ..
next
  assume "\<exists>p. s = p @ suffix"
  then show "endsWith s suffix"
    by (auto simp: endsWith_def)
qed

text \<open>The queries read the document and the store and nothing else.\<close>

lemma querySelectorAll_cong:
  "document s' = document s \<Longrightarrow> heap s' = heap s \<Longrightarrow> querySelectorAll s' sel = querySelectorAll s sel"
  by (simp add: querySelectorAll_def)

lemma querySelector_cong:
  "document s' = document s \<Longrightarrow> heap s' = heap s \<Longrightarrow> querySelector s' sel = querySelector s sel"
  by (simp add: querySelector_def querySelectorAll_def)

lemma getElementById_cong:
  "document s' = document s \<Longrightarrow> heap s' = heap s \<Longrightarrow> getElementById s' i = getElementById s i"
  by (simp add: getElementById_def querySelector_def querySelectorAll_def)

lemma parentElement_cong:
  "document s' = document s \<Longrightarrow> parentElement s' r = parentElement s r"
  by (simp add: parentElement_def)

lemma tableEl_cong:
  "document s' = document s \<Longrightarrow> heap s' = heap s \<Longrightarrow> tableEl s' = tableEl s"
  using querySelector_cong [of s' s] getElementById_cong [of s' s]
  by (simp add: tableEl_def split: option.splits)

lemma in_container_cong:
  "document s' = document s \<Longrightarrow> heap s' = heap s \<Longrightarrow> in_container s' t = in_container s t"
  using parentElement_cong [of s' s t]
  by (simp add: in_container_def split: option.splits)

section \<open>The change listener\<close>

lemma update_file_info_frame:
  "listeners (update_file_info f s) = listeners s"
  "dispatched (update_file_info f s) = dispatched s"
  "alerts (update_file_info f s) = alerts s"
  "files (heap (update_file_info f s) r) = files (heap s r)"
  "classList (heap (update_file_info f s) r) = classList (heap s r)"
  by (simp_all add: update_file_info_def dom_defs split: option.splits)

lemma update_file_info_text:
  "textContent (heap (update_file_info f s) r) = textContent (heap s r)
   \<or> textContent (heap (update_file_info f s) r) = file_name f"
  by (simp add: update_file_info_def dom_defs split: option.splits)

lemma show_selected_frame:
  "listeners (show_selected ft fl f s) = listeners s"
  "dispatched (show_selected ft fl f s) = dispatched s"
  "alerts (show_selected ft fl f s) = alerts s"
  "files (heap (show_selected ft fl f s) r) = files (heap s r)"
  by (simp_all add: show_selected_def dom_defs)

lemma show_selected_text:
  "textContent (heap (show_selected ft fl f s) r) = (if r = ft then file_name f else textContent (heap s r))"
  by (simp add: show_selected_def dom_defs)

lemma show_selected_classes:
  "set (classList (heap (show_selected ft fl f s) r)) =
     (if r = fl then insert ''file-selected'' (set (classList (heap s r))) else set (classList (heap s r)))"
  by (auto simp: show_selected_def dom_defs)

lemma change_handler_frame:
  "listeners (change_handler ft fl e s) = listeners s"
  "dispatched (change_handler ft fl e s) = dispatched s"
  "alerts (change_handler ft fl e s) = alerts s"
  "files (heap (change_handler ft fl e s) r) = files (heap s r)"
  by (simp_all add: change_handler_def update_file_info_frame show_selected_frame dom_defs split: list.splits)

lemma change_handler_text_self:
  "files (heap s (target e)) = f # fs \<Longrightarrow> textContent (heap (change_handler ft fl e s) ft) = file_name f"
  using update_file_info_text [of f "show_selected ft fl f s" ft]
  by (auto simp: change_handler_def show_selected_text)

lemma change_handler_text_keep:
  "files (heap s (target e)) = f # fs \<Longrightarrow> textContent (heap s r) = file_name f \<Longrightarrow>
   textContent (heap (change_handler ft fl e s) r) = file_name f"
  using update_file_info_text [of f "show_selected ft fl f s" r]
  by (auto simp: change_handler_def show_selected_text)

lemma change_handler_drag_over:
  "''drag-over'' \<in> set (classList (heap (change_handler ft fl e s) r)) \<longleftrightarrow>
   ''drag-over'' \<in> set (classList (heap s r))"
  by (auto simp: change_handler_def update_file_info_frame show_selected_classes dom_defs split: list.splits)

lemma run_change_frame:
  "listeners (run_change e l s) = listeners s"
  "dispatched (run_change e l s) = dispatched s"
  "alerts (run_change e l s) = alerts s"
  "files (heap (run_change e l s) r) = files (heap s r)"
  by (cases l; simp add: change_handler_frame)+

lemma run_change_drag_over:
  "''drag-over'' \<in> set (classList (heap (run_change e l s) r)) \<longleftrightarrow> ''drag-over'' \<in> set (classList (heap s r))"
  by (cases l) (simp_all add: change_handler_drag_over)

lemma fold_run_change_frame:
  "listeners (fold (run_change e) ls s) = listeners s"
  "dispatched (fold (run_change e) ls s) = dispatched s"
  "alerts (fold (run_change e) ls s) = alerts s"
  "files (heap (fold (run_change e) ls s) r) = files (heap s r)"
  by (induction ls arbitrary: s; simp add: run_change_frame)+

lemma fold_run_change_drag_over:
  "''drag-over'' \<in> set (classList (heap (fold (run_change e) ls s) r)) \<longleftrightarrow> ''drag-over'' \<in> set (classList (heap s r))"
  by (induction ls arbitrary: s) (simp_all add: run_change_drag_over)

lemma fold_run_change_text_keep:
  "files (heap s (target e)) = f # fs \<Longrightarrow> textContent (heap s r) = file_name f \<Longrightarrow>
   textContent (heap (fold (run_change e) ls s) r) = file_name f"
proof (induction ls arbitrary: s)
  case Nil
  then show ?case by simp
next
  case (Cons l ls)
  have fs: "files (heap (run_change e l s) (target e)) = f # fs"
    using Cons.prems(1) by (simp add: run_change_frame)
  have "textContent (heap (run_change e l s) r) = file_name f"
    using Cons.prems by (cases l) (simp_all add: change_handler_text_keep)
  with fs show ?case
    using Cons.IH by simp
qed

lemma fold_run_change_text:
  "files (heap s (target e)) = f # fs \<Longrightarrow> ChangeListener (target e) ft fl \<in> set ls \<Longrightarrow>
   textContent (heap (fold (run_change e) ls s) ft) = file_name f"
proof (induction ls arbitrary: s)
  case Nil
  then show ?case by simp
next
  case (Cons l ls)
  have fs: "files (heap (run_change e l s) (target e)) = f # fs"
    using Cons.prems(1) by (simp add: run_change_frame)
  show ?case
  proof (cases "l = ChangeListener (target e) ft fl")
    case True
    then have "textContent (heap (run_change e l s) ft) = file_name f"
      using Cons.prems(1) by (simp add: change_handler_text_self)
    with fs show ?thesis
      by (simp add: fold_run_change_text_keep)
  next
    case False
    with Cons.prems(2) have "ChangeListener (target e) ft fl \<in> set ls"
      by simp
    with fs show ?thesis
      using Cons.IH by simp
  qed
qed

lemma dispatch_change_frame:
  "listeners (dispatch_change t s) = listeners s"
  "dispatched (dispatch_change t s) = dispatched s @ [(t, ''change'')]"
  "alerts (dispatch_change t s) = alerts s"
  "files (heap (dispatch_change t s) r) = files (heap s r)"
  by (simp_all add: dispatch_change_def fold_run_change_frame)

lemma dispatch_change_drag_over:
  "''drag-over'' \<in> set (classList (heap (dispatch_change t s) r)) \<longleftrightarrow> ''drag-over'' \<in> set (classList (heap s r))"
  by (simp add: dispatch_change_def fold_run_change_drag_over)

lemma dispatch_change_text:
  assumes "files (heap s t) = f # fs" and "ChangeListener t ft fl \<in> set (listeners s)"
  shows "textContent (heap (dispatch_change t s) ft) = file_name f"
  unfolding dispatch_change_def
  by (rule fold_run_change_text [where fs = fs and fl = fl]) (use assms in \<open>simp_all add: new_Event_def\<close>)


lemma ready_home_page_listeners:
  "listeners (ready home_page) =
     [ChangeListener 2 3 1, DragoverListener 1, DragleaveListener 1, DropListener 1 2, ClickListener 8]"
  by code_simp

section \<open>Dropping files on the label\<close>

text \<open>
  Claim C9. A drop event whose file list is empty does nothing to the page except that
  it removes the class \<open>drag-over\<close> from the label: no alert is shown, no \<open>files\<close>
  property changes and no event is dispatched.
\<close>

theorem drop_without_files:
  assumes "dataTransfer e = []"
  shows "snd (drop_handler fileInput fileLabel e s) = classList_remove fileLabel ''drag-over'' s
    \<and> alerts (snd (drop_handler fileInput fileLabel e s)) = alerts s
    \<and> dispatched (snd (drop_handler fileInput fileLabel e s)) = dispatched s
    \<and> (\<forall>r. files (heap (snd (drop_handler fileInput fileLabel e s)) r) = files (heap s r))"
  using assms by (simp add: drop_handler_def dom_defs)

theorem drop_without_files_witness:
  "dataTransfer (drag_of 1 []) = []
   \<and> snd (drop_handler 2 1 (drag_of 1 []) (ready home_page)) = classList_remove 1 ''drag-over'' (ready home_page)
   \<and> alerts (snd (drop_handler 2 1 (drag_of 1 []) (ready home_page))) = alerts (ready home_page)
   \<and> dispatched (snd (drop_handler 2 1 (drag_of 1 []) (ready home_page))) = dispatched (ready home_page)
   \<and> files (heap (snd (drop_handler 2 1 (drag_of 1 []) (ready home_page))) 2) = files (heap (ready home_page) 2)"
  using drop_without_files [of "drag_of 1 []" 2 1 "ready home_page"]
  by (simp add: drag_of_def dom_defs)

text \<open>
  Claim C1. A drop event whose first file has a type other than \<open>text/csv\<close> and a name
  that does not end in \<open>.csv\<close> shows the alert \<open>Please select a CSV file.\<close>, leaves the
  \<open>files\<close> property of the file input (and of every element) as it was and dispatches no
  event.
\<close>

theorem drop_of_other_file:
  assumes "dataTransfer e = file # rest"
    and "file_type file \<noteq> ''text/csv''"
    and "\<not> (\<exists>p. file_name file = p @ ''.csv'')"
  shows "alerts (snd (drop_handler fileInput fileLabel e s)) = alerts s @ [''Please select a CSV file.'']
    \<and> (\<forall>r. files (heap (snd (drop_handler fileInput fileLabel e s)) r) = files (heap s r))
    \<and> dispatched (snd (drop_handler fileInput fileLabel e s)) = dispatched s"
  using assms by (simp add: drop_handler_def endsWith_iff dom_defs)

theorem drop_of_other_file_witness:
  "dataTransfer (drag_of 1 [png_file]) = png_file # []
   \<and> file_type png_file \<noteq> ''text/csv''
   \<and> \<not> (\<exists>p. file_name png_file = p @ ''.csv'')
   \<and> alerts (snd (drop_handler 2 1 (drag_of 1 [png_file]) (ready home_page))) = [''Please select a CSV file.'']
   \<and> files (heap (snd (drop_handler 2 1 (drag_of 1 [png_file]) (ready home_page))) 2) = []
   \<and> dispatched (snd (drop_handler 2 1 (drag_of 1 [png_file]) (ready home_page))) = []"
proof -
  have a: "dataTransfer (drag_of 1 [png_file]) = png_file # []"
    by (simp add: drag_of_def)
  have b: "file_type png_file \<noteq> ''text/csv''"
    by (simp add: png_file_def)
  have c: "\<not> (\<exists>p. file_name png_file = p @ ''.csv'')"
    unfolding endsWith_iff [symmetric] by (simp add: endsWith_def png_file_def)
  have d: "alerts (ready home_page) = []" "dispatched (ready home_page) = []"
    "files (heap (ready home_page) 2) = []"
    by code_simp+
  show ?thesis
    using drop_of_other_file [OF a b c, of 2 1 "ready home_page"] a b c d by simp
qed

text \<open>
  Claim C4. A drop event whose first file has the type \<open>text/csv\<close> or a name ending in
  \<open>.csv\<close> (either one is enough) assigns the dropped file list to the \<open>files\<close> property
  of the file input and dispatches a \<open>change\<close> event on it; the \<open>change\<close> listener that
  the script attached to the input then makes the text of the \<open>.file-text\<close> element the
  name of that file.
\<close>

theorem drop_of_csv_file:
  assumes "dataTransfer e = file # rest"
    and "file_type file = ''text/csv'' \<or> (\<exists>p. file_name file = p @ ''.csv'')"
    and "ChangeListener fileInput fileText fileLabel \<in> set (listeners s)"
  shows "files (heap (snd (drop_handler fileInput fileLabel e s)) fileInput) = dataTransfer e
    \<and> dispatched (snd (drop_handler fileInput fileLabel e s)) = dispatched s @ [(fileInput, ''change'')]
    \<and> textContent (heap (snd (drop_handler fileInput fileLabel e s)) fileText) = file_name file"
proof -
  let ?s2 = "set_files fileInput (dataTransfer e) (classList_remove fileLabel ''drag-over'' s)"
  have csv: "file_type file = ''text/csv'' \<or> endsWith (file_name file) ''.csv''"
    using assms(2) by (simp add: endsWith_iff)
  have run: "snd (drop_handler fileInput fileLabel e s) = dispatch_change fileInput ?s2"
    using assms(1) csv by (simp add: drop_handler_def)
  have fs: "files (heap ?s2 fileInput) = file # rest"
    using assms(1) by (simp add: dom_defs)
  have ls: "ChangeListener fileInput fileText fileLabel \<in> set (listeners ?s2)"
    using assms(3) by (simp add: dom_defs)
  have "files (heap (dispatch_change fileInput ?s2) fileInput) = dataTransfer e"
    using fs assms(1) by (simp add: dispatch_change_frame)
  moreover have "dispatched (dispatch_change fileInput ?s2) = dispatched s @ [(fileInput, ''change'')]"
    by (simp add: dispatch_change_frame dom_defs)
  moreover have "textContent (heap (dispatch_change fileInput ?s2) fileText) = file_name file"
    using fs ls by (rule dispatch_change_text)
  ultimately show ?thesis
    by (simp add: run)
qed

theorem drop_of_csv_file_witness:
  "dataTransfer (drag_of 1 [csv_by_name]) = csv_by_name # []
   \<and> (file_type csv_by_name = ''text/csv'' \<or> (\<exists>p. file_name csv_by_name = p @ ''.csv''))
   \<and> file_type csv_by_name \<noteq> ''text/csv''
   \<and> ChangeListener 2 3 1 \<in> set (listeners (ready home_page))
   \<and> files (heap (snd (drop_handler 2 1 (drag_of 1 [csv_by_name]) (ready home_page))) 2) = [csv_by_name]
   \<and> dispatched (snd (drop_handler 2 1 (drag_of 1 [csv_by_name]) (ready home_page))) = [(2, ''change'')]
   \<and> textContent (heap (snd (drop_handler 2 1 (drag_of 1 [csv_by_name]) (ready home_page))) 3) = ''export.csv''"
proof -
  have a: "dataTransfer (drag_of 1 [csv_by_name]) = csv_by_name # []"
    by (simp add: drag_of_def)
  have "endsWith (file_name csv_by_name) ''.csv''"
    by (simp add: endsWith_def csv_by_name_def)
  then have b: "file_type csv_by_name = ''text/csv'' \<or> (\<exists>p. file_name csv_by_name = p @ ''.csv'')"
    by (simp add: endsWith_iff)
  have c: "ChangeListener 2 3 1 \<in> set (listeners (ready home_page))"
    by (simp add: ready_home_page_listeners)
  have d: "dispatched (ready home_page) = []"
    by code_simp
  have e: "file_type csv_by_name \<noteq> ''text/csv''" "file_name csv_by_name = ''export.csv''"
    by (simp_all add: csv_by_name_def)
  show ?thesis
    using drop_of_csv_file [OF a b c] a b c d e by simp
qed

section \<open>The class drag-over\<close>

lemma drop_handler_drag_over:
  "''drag-over'' \<notin> set (classList (heap (snd (drop_handler fileInput fileLabel e s)) fileLabel))"
  by (simp add: drop_handler_def Let_def dispatch_change_drag_over dom_defs split: list.splits)

text \<open>
  Claim C10. After a \<open>dragover\<close> event the label has the class \<open>drag-over\<close>; after a
  \<open>dragleave\<close> event and after a \<open>drop\<close> event it does not; so after any sequence of
  these events that ends in \<open>dragleave\<close> or \<open>drop\<close> the label does not have the class.
\<close>

theorem drag_over_class:
  "''drag-over'' \<in> set (classList (heap (snd (dragover_handler fileLabel e s)) fileLabel))
   \<and> ''drag-over'' \<notin> set (classList (heap (snd (dragleave_handler fileLabel e s)) fileLabel))
   \<and> ''drag-over'' \<notin> set (classList (heap (snd (drop_handler fileInput fileLabel e s)) fileLabel))
   \<and> (evs \<noteq> [] \<and> ends_drag (last evs) \<longrightarrow>
        ''drag-over'' \<notin> set (classList (heap (fold (drag_step fileInput fileLabel) evs s) fileLabel)))"
proof -
  have over: "''drag-over'' \<in> set (classList (heap (snd (dragover_handler fileLabel e s)) fileLabel))"
    by (simp add: dragover_handler_def dom_defs)
  have leave: "\<And>e s. ''drag-over'' \<notin> set (classList (heap (snd (dragleave_handler fileLabel e s)) fileLabel))"
    by (simp add: dragleave_handler_def dom_defs)
  have step: "ends_drag ev \<Longrightarrow>
      ''drag-over'' \<notin> set (classList (heap (drag_step fileInput fileLabel ev s') fileLabel))" for ev s'
    by (cases ev) (simp_all add: leave drop_handler_drag_over)
  have "''drag-over'' \<notin> set (classList (heap (fold (drag_step fileInput fileLabel) evs s) fileLabel))"
    if "evs \<noteq> []" and "ends_drag (last evs)"
  proof -
    from that(1) obtain pre ev where evs: "evs = pre @ [ev]"
      by (cases evs rule: rev_cases) auto
    with that(2) have "ends_drag ev"
      by simp
    then show ?thesis
      by (simp add: evs step)
  qed
  with over leave drop_handler_drag_over show ?thesis
    by blast
qed

theorem drag_over_class_witness:
  "''drag-over'' \<in> set (classList (heap (snd (dragover_handler 1 (drag_of 1 []) (ready home_page))) 1))
   \<and> [Dragover (drag_of 1 []), Dragover (drag_of 1 []), Drop (drag_of 1 [csv_file])] \<noteq> []
   \<and> ends_drag (last [Dragover (drag_of 1 []), Dragover (drag_of 1 []), Drop (drag_of 1 [csv_file])])
   \<and> ''drag-over'' \<notin> set (classList (heap (fold (drag_step 2 1)
         [Dragover (drag_of 1 []), Dragover (drag_of 1 []), Drop (drag_of 1 [csv_file])] (ready home_page)) 1))"
  using drag_over_class [of 1 "drag_of 1 []" "ready home_page" 2
      "[Dragover (drag_of 1 []), Dragover (drag_of 1 []), Drop (drag_of 1 [csv_file])]"]
  by simp

section \<open>The change event\<close>

text \<open>
  The listener looks the file info section up after it has replaced the text of the
  \<open>.file-text\<close> element. That removes the elements inside \<open>.file-text\<close> from the
  document and changes no lookup by class of an element outside it.
\<close>

lemma walk_ancestors: "x \<in> set (walk anc n) \<Longrightarrow> set anc \<subseteq> set (snd x)"
  by (induction anc n rule: walk.induct) auto

lemma walk_remove_children:
  "r \<notin> set anc \<Longrightarrow> walk anc (remove_children r n) = filter (\<lambda>x. r \<notin> set (snd x)) (walk anc n)"
proof (induction anc n rule: walk.induct)
  case (1 anc q cs)
  show ?case
  proof (cases "q = r")
    case True
    have "filter (\<lambda>x. r \<notin> set (snd x)) (concat (map (walk (r # anc)) cs)) = []"
      using walk_ancestors by (fastforce simp: filter_empty_conv)
    with True "1.prems" show ?thesis
      by simp
  next
    case False
    have step: "walk (q # anc) (remove_children r c) = filter (\<lambda>x. r \<notin> set (snd x)) (walk (q # anc) c)"
      if "c \<in> set cs" for c
      using that False "1.prems" "1.IH" by simp
    have "concat (map (\<lambda>c. walk (q # anc) (remove_children r c)) cs)
        = concat (map (\<lambda>c. filter (\<lambda>x. r \<notin> set (snd x)) (walk (q # anc) c)) cs)"
      by (rule arg_cong [where f = concat], rule map_cong [OF refl]) (rule step)
    also have "\<dots> = filter (\<lambda>x. r \<notin> set (snd x)) (concat (map (walk (q # anc)) cs))"
      by (simp add: filter_concat comp_def)
    finally show ?thesis
      using False "1.prems" by (simp add: comp_def)
  qed
qed

lemma show_selected_document:
  "walk [] (document (show_selected ft fl f s)) = filter (\<lambda>x. ft \<notin> set (snd x)) (walk [] (document s))"
  by (simp add: show_selected_def dom_defs walk_remove_children)

lemma show_selected_matches:
  "c \<noteq> ''file-selected'' \<Longrightarrow>
   matches (heap (show_selected ft fl f s)) [[ClassSel c]] x = matches (heap s) [[ClassSel c]] x"
  using show_selected_classes [of ft fl f s "fst x"]
  by (auto simp: matches_def matches_compound_def)

lemma filter_first_kept:
  "filter P xs = x # rest \<Longrightarrow> Q x \<Longrightarrow> filter P (filter Q xs) = x # filter Q rest"
proof -
  assume a: "filter P xs = x # rest" and q: "Q x"
  have "filter P (filter Q xs) = filter Q (filter P xs)"
    by (simp add: conj_commute)
  with a q show ?thesis
    by simp
qed

lemma show_selected_querySelector:
  assumes "querySelector s [[ClassSel c]] = Some r"
    and "c \<noteq> ''file-selected''"
    and "\<not> inside s r ft"
  shows "querySelector (show_selected ft fl f s) [[ClassSel c]] = Some r"
proof -
  let ?P = "matches (heap s) [[ClassSel c]]"
  from assms(1) obtain x rest where x: "filter ?P (walk [] (document s)) = x # rest" "fst x = r"
    by (auto simp: querySelector_def querySelectorAll_def split: list.splits)
  then have "x \<in> set (filter ?P (walk [] (document s)))"
    by simp
  then have "x \<in> set (walk [] (document s))"
    by simp
  with assms(3) x(2) have "ft \<notin> set (snd x)"
    by (auto simp: inside_def)
  with x(1) have "filter ?P (filter (\<lambda>x. ft \<notin> set (snd x)) (walk [] (document s)))
      = x # filter (\<lambda>x. ft \<notin> set (snd x)) rest"
    by (rule filter_first_kept)
  moreover have "matches (heap (show_selected ft fl f s)) [[ClassSel c]] = ?P"
    using assms(2) by (intro ext show_selected_matches)
  ultimately show ?thesis
    using x(2) by (simp add: querySelector_def querySelectorAll_def show_selected_document)
qed

lemma show_selected_element_querySelector:
  assumes "element_querySelector s scope [[ClassSel c]] = Some r"
    and "c \<noteq> ''file-selected''"
    and "\<not> inside s r ft"
  shows "element_querySelector (show_selected ft fl f s) scope [[ClassSel c]] = Some r"
proof -
  let ?P = "\<lambda>x. scope \<in> set (snd x) \<and> matches (heap s) [[ClassSel c]] x"
  from assms(1) obtain x rest where x: "filter ?P (walk [] (document s)) = x # rest" "fst x = r"
    by (auto simp: element_querySelector_def split: list.splits)
  then have "x \<in> set (filter ?P (walk [] (document s)))"
    by simp
  then have "x \<in> set (walk [] (document s))"
    by simp
  with assms(3) x(2) have "ft \<notin> set (snd x)"
    by (auto simp: inside_def)
  with x(1) have "filter ?P (filter (\<lambda>x. ft \<notin> set (snd x)) (walk [] (document s)))
      = x # filter (\<lambda>x. ft \<notin> set (snd x)) rest"
    by (rule filter_first_kept)
  moreover have "matches (heap (show_selected ft fl f s)) [[ClassSel c]] = matches (heap s) [[ClassSel c]]"
    using assms(2) by (intro ext show_selected_matches)
  ultimately show ?thesis
    using x(2) by (simp add: element_querySelector_def show_selected_document)
qed

lemma change_handler_file_info:
  assumes "files (heap s (target e)) = file # rest"
    and "querySelector s [[ClassSel ''file-info'']] = Some fileInfo"
    and "element_querySelector s fileInfo [[ClassSel ''filename-text'']] = Some filenameText"
    and "\<not> inside s fileInfo fileText"
    and "\<not> inside s filenameText fileText"
  shows "textContent (heap (change_handler fileText fileLabel e s) filenameText) = file_name file"
proof -
  let ?s1 = "show_selected fileText fileLabel file s"
  have "querySelector ?s1 [[ClassSel ''file-info'']] = Some fileInfo"
    using assms(2) _ assms(4) by (rule show_selected_querySelector) simp
  moreover have "element_querySelector ?s1 fileInfo [[ClassSel ''filename-text'']] = Some filenameText"
    using assms(3) _ assms(5) by (rule show_selected_element_querySelector) simp
  ultimately show ?thesis
    using assms(1)
    by (simp add: change_handler_def update_file_info_def set_textContent_def update_element_def)
qed

text \<open>
  Claim C5, amended. When the \<open>files\<close> of the target of a \<open>change\<close> event has a first
  file, the listener makes the text of the \<open>.file-text\<close> element the name of that file,
  the label has the class \<open>file-selected\<close> afterwards, and the \<open>.filename-text\<close> element
  inside \<open>.file-info\<close>, when both exist on the page and neither lies inside the
  \<open>.file-text\<close> element, has the name of the file as its text too. When the list is
  empty the text becomes \<open>Choose CSV File\<close> and the label does not have the class
  \<open>file-selected\<close> afterwards.
\<close>

theorem change_event:
  "(files (heap s (target e)) = file # rest \<longrightarrow>
      textContent (heap (change_handler fileText fileLabel e s) fileText) = file_name file
      \<and> ''file-selected'' \<in> set (classList (heap (change_handler fileText fileLabel e s) fileLabel))
      \<and> (\<forall>fileInfo filenameText.
           querySelector s [[ClassSel ''file-info'']] = Some fileInfo
           \<and> element_querySelector s fileInfo [[ClassSel ''filename-text'']] = Some filenameText
           \<and> \<not> inside s fileInfo fileText
           \<and> \<not> inside s filenameText fileText
           \<longrightarrow> textContent (heap (change_handler fileText fileLabel e s) filenameText) = file_name file))
   \<and> (files (heap s (target e)) = [] \<longrightarrow>
      textContent (heap (change_handler fileText fileLabel e s) fileText) = ''Choose CSV File''
      \<and> ''file-selected'' \<notin> set (classList (heap (change_handler fileText fileLabel e s) fileLabel)))"
proof (intro conjI impI allI)
  assume "files (heap s (target e)) = file # rest"
  then show "textContent (heap (change_handler fileText fileLabel e s) fileText) = file_name file"
    by (rule change_handler_text_self)
next
  assume "files (heap s (target e)) = file # rest"
  then show "''file-selected'' \<in> set (classList (heap (change_handler fileText fileLabel e s) fileLabel))"
    by (simp add: change_handler_def update_file_info_frame show_selected_classes)
next
  fix fileInfo filenameText
  assume fs: "files (heap s (target e)) = file # rest"
    and found: "querySelector s [[ClassSel ''file-info'']] = Some fileInfo
      \<and> element_querySelector s fileInfo [[ClassSel ''filename-text'']] = Some filenameText
      \<and> \<not> inside s fileInfo fileText
      \<and> \<not> inside s filenameText fileText"
  from found have "querySelector s [[ClassSel ''file-info'']] = Some fileInfo"
    and "element_querySelector s fileInfo [[ClassSel ''filename-text'']] = Some filenameText"
    and "\<not> inside s fileInfo fileText"
    and "\<not> inside s filenameText fileText"
    by simp_all
  with fs show "textContent (heap (change_handler fileText fileLabel e s) filenameText) = file_name file"
    by (rule change_handler_file_info)
next
  assume "files (heap s (target e)) = []"
  then show "textContent (heap (change_handler fileText fileLabel e s) fileText) = ''Choose CSV File''"
    by (simp add: change_handler_def dom_defs)
next
  assume "files (heap s (target e)) = []"
  then show "''file-selected'' \<notin> set (classList (heap (change_handler fileText fileLabel e s) fileLabel))"
    by (simp add: change_handler_def dom_defs)
qed

theorem change_event_witness:
  "files (heap (set_files 2 [csv_file] (ready home_page)) (target (new_Event 2))) = csv_file # []
   \<and> textContent (heap (change_handler 3 1 (new_Event 2) (set_files 2 [csv_file] (ready home_page))) 3) = ''data.csv''
   \<and> ''file-selected'' \<in> set (classList (heap (change_handler 3 1 (new_Event 2) (set_files 2 [csv_file] (ready home_page))) 1))
   \<and> querySelector (set_files 2 [csv_file] (ready home_page)) [[ClassSel ''file-info'']] = Some 4
   \<and> element_querySelector (set_files 2 [csv_file] (ready home_page)) 4 [[ClassSel ''filename-text'']] = Some 5
   \<and> \<not> inside (set_files 2 [csv_file] (ready home_page)) 4 3
   \<and> \<not> inside (set_files 2 [csv_file] (ready home_page)) 5 3
   \<and> textContent (heap (change_handler 3 1 (new_Event 2) (set_files 2 [csv_file] (ready home_page))) 5) = ''data.csv''
   \<and> files (heap (ready home_page) (target (new_Event 2))) = []
   \<and> textContent (heap (change_handler 3 1 (new_Event 2) (ready home_page)) 3) = ''Choose CSV File''
   \<and> ''file-selected'' \<notin> set (classList (heap (change_handler 3 1 (new_Event 2) (ready home_page)) 1))"
proof -
  have a: "files (heap (set_files 2 [csv_file] (ready home_page)) (target (new_Event 2))) = csv_file # []"
    by (simp add: new_Event_def dom_defs)
  have b: "querySelector (set_files 2 [csv_file] (ready home_page)) [[ClassSel ''file-info'']] = Some 4"
    by code_simp
  have c: "element_querySelector (set_files 2 [csv_file] (ready home_page)) 4 [[ClassSel ''filename-text'']] = Some 5"
    by code_simp
  have i: "\<not> inside (set_files 2 [csv_file] (ready home_page)) 4 3"
    "\<not> inside (set_files 2 [csv_file] (ready home_page)) 5 3"
    by code_simp+
  have d: "files (heap (ready home_page) (target (new_Event 2))) = []"
    by code_simp
  have n: "file_name csv_file = ''data.csv''"
    by (simp add: csv_file_def)
  show ?thesis
    using change_event [of "set_files 2 [csv_file] (ready home_page)" "new_Event 2" csv_file "[]" 3 1]
      change_event [of "ready home_page" "new_Event 2" csv_file "[]" 3 1] a b c d i n
    by simp
qed

text \<open>
  The claim as the specification has it fails on a page whose file info section sits
  inside the \<open>.file-text\<close> element: both elements exist when the event arrives, line 19
  removes them from the document, the lookup of line 27 finds nothing and the text of
  \<open>.filename-text\<close> stays as it was.
\<close>

theorem change_event_counterexample:
  "files (heap (set_files 2 [csv_file] nested_info_page) (target (new_Event 2))) = [csv_file]
   \<and> querySelector (set_files 2 [csv_file] nested_info_page) [[ClassSel ''file-text'']] = Some 3
   \<and> querySelector (set_files 2 [csv_file] nested_info_page) [[ClassSel ''file-info'']] = Some 4
   \<and> element_querySelector (set_files 2 [csv_file] nested_info_page) 4 [[ClassSel ''filename-text'']] = Some 5
   \<and> textContent (heap (change_handler 3 1 (new_Event 2) (set_files 2 [csv_file] nested_info_page)) 5) = []
   \<and> textContent (heap (change_handler 3 1 (new_Event 2) (set_files 2 [csv_file] nested_info_page)) 5)
       \<noteq> file_name csv_file"
  by code_simp

section \<open>The sections of the callback\<close>

lemma file_input_section_frame:
  "document (file_input_section s) = document s"
  "heap (file_input_section s) = heap s"
  "widgets (file_input_section s) = widgets s"
  "requests (file_input_section s) = requests s"
  by (simp_all add: file_input_section_def dom_defs split: option.splits)

lemma file_input_section_attaches:
  assumes "getElementById s ''csvFileInput'' = Some fileInput"
    and "querySelector s [[ClassSel ''file-input-label'']] = Some fileLabel"
    and "querySelector s [[ClassSel ''file-text'']] = Some fileText"
  shows "listeners (file_input_section s) =
     listeners s @ [ChangeListener fileInput fileText fileLabel, DragoverListener fileLabel,
                    DragleaveListener fileLabel, DropListener fileLabel fileInput]"
  using assms by (simp add: file_input_section_def addEventListener_def)

lemma datatable_section_frame:
  "document (datatable_section s) = document s"
  "heap (datatable_section s) = heap s"
  "listeners (datatable_section s) = listeners s"
  by (simp_all add: datatable_section_def DataTable_def dom_defs split: option.splits)

lemma button_section_frame:
  "document (button_section s) = document s"
  "heap (button_section s) = heap s"
  "widgets (button_section s) = widgets s"
  "requests (button_section s) = requests s"
  by (simp_all add: button_section_def dom_defs split: option.splits)

lemma stat_cards_section_frame:
  "document (stat_cards_section s) = document s"
  "heap (stat_cards_section s) = heap s"
  "widgets (stat_cards_section s) = widgets s"
  "requests (stat_cards_section s) = requests s"
  "listeners (stat_cards_section s) = listeners s"
  by (simp_all add: stat_cards_section_def Let_def)

lemma ready_frame:
  "document (ready s) = document s"
  "heap (ready s) = heap s"
  "widgets (ready s) = widgets (datatable_section (file_input_section s))"
  "requests (ready s) = requests (datatable_section (file_input_section s))"
  by (simp_all add: ready_def stat_cards_section_frame button_section_frame datatable_section_frame
      file_input_section_frame)

lemma ready_listeners:
  "listeners (ready s) =
     listeners (file_input_section s)
       @ (case querySelector s [[ClassSel ''btn'', ClassSel ''large'']] of
            None \<Rightarrow> [] | Some b \<Rightarrow> [ClickListener b])"
proof -
  let ?s2 = "datatable_section (file_input_section s)"
  have "querySelector ?s2 [[ClassSel ''btn'', ClassSel ''large'']]
      = querySelector s [[ClassSel ''btn'', ClassSel ''large'']]"
    by (rule querySelector_cong) (simp_all add: datatable_section_frame file_input_section_frame)
  then show ?thesis
    by (simp add: ready_def stat_cards_section_frame button_section_def addEventListener_def
        datatable_section_frame split: option.splits)
qed

text \<open>
  Claim C6. When \<open>#csvFileInput\<close>, \<open>.file-input-label\<close> or \<open>.file-text\<close> is missing, the
  file input section leaves the whole page as it is, and the callback attaches no
  \<open>change\<close>, \<open>dragover\<close>, \<open>dragleave\<close> or \<open>drop\<close> listener: the only listener it may
  attach is the \<open>click\<close> listener of the action button.
\<close>

theorem missing_element_skips_file_input:
  assumes "getElementById s ''csvFileInput'' = None
    \<or> querySelector s [[ClassSel ''file-input-label'']] = None
    \<or> querySelector s [[ClassSel ''file-text'']] = None"
  shows "file_input_section s = s
    \<and> listeners (ready s) =
        listeners s @ (case querySelector s [[ClassSel ''btn'', ClassSel ''large'']] of
                         None \<Rightarrow> [] | Some b \<Rightarrow> [ClickListener b])"
proof -
  have "file_input_section s = s"
    using assms by (auto simp: file_input_section_def split: option.splits)
  then show ?thesis
    using ready_listeners [of s] by simp
qed

theorem missing_element_skips_file_input_witness:
  "getElementById no_input_page ''csvFileInput'' = None
   \<and> querySelector no_input_page [[ClassSel ''file-input-label'']] = Some 1
   \<and> querySelector no_input_page [[ClassSel ''file-text'']] = Some 3
   \<and> file_input_section no_input_page = no_input_page
   \<and> listeners (ready no_input_page) = []"
proof -
  have a: "getElementById no_input_page ''csvFileInput'' = None"
    by code_simp
  have b: "querySelector no_input_page [[ClassSel ''file-input-label'']] = Some 1"
    "querySelector no_input_page [[ClassSel ''file-text'']] = Some 3"
    "querySelector no_input_page [[ClassSel ''btn'', ClassSel ''large'']] = None"
    "listeners no_input_page = []"
    by code_simp+
  show ?thesis
    using missing_element_skips_file_input [of no_input_page] a b by simp
qed

text \<open>
  Claim C2, amended. Let \<open>tableEl\<close> be the first \<open>table\<close> below an element with the id
  \<open>csvTableContainer\<close> or, when there is none, the element with the id \<open>csvTable\<close>. When
  \<open>tableEl\<close> exists and the id of its parent element is \<open>csvTableContainer\<close>, the callback
  initialises the widget on it and makes no request; when \<open>tableEl\<close> exists and its parent
  is another element, the callback makes one \<open>GET /data\<close> request and initialises no
  widget itself; when \<open>tableEl\<close> does not exist, it does neither.
\<close>

theorem datatable_initialisation:
  "tableEl s =
     (case querySelector s [[IdSel ''csvTableContainer''], [TagSel ''table'']] of
        Some t \<Rightarrow> Some t | None \<Rightarrow> getElementById s ''csvTable'')
   \<and> (tableEl s = Some t \<and> in_container s t \<longrightarrow>
        widgets (ready s) = widgets s @ [(t, prerendered_options)] \<and> requests (ready s) = requests s)
   \<and> (tableEl s = Some t \<and> \<not> in_container s t \<longrightarrow>
        widgets (ready s) = widgets s \<and> requests (ready s) = requests s @ [data_request])
   \<and> (tableEl s = None \<longrightarrow> widgets (ready s) = widgets s \<and> requests (ready s) = requests s)"
proof -
  let ?s1 = "file_input_section s"
  have t: "tableEl ?s1 = tableEl s"
    by (rule tableEl_cong) (simp_all add: file_input_section_frame)
  have c: "in_container ?s1 t' = in_container s t'" for t'
    by (rule in_container_cong) (simp_all add: file_input_section_frame)
  have q: "tableEl s =
     (case querySelector s [[IdSel ''csvTableContainer''], [TagSel ''table'']] of
        Some t \<Rightarrow> Some t | None \<Rightarrow> getElementById s ''csvTable'')"
    by (simp add: tableEl_def)
  have "widgets (ready s) = widgets s @ [(t, prerendered_options)] \<and> requests (ready s) = requests s"
    if "tableEl s = Some t" and "in_container s t"
    using that by (simp add: ready_frame datatable_section_def t c DataTable_def file_input_section_frame)
  moreover have "widgets (ready s) = widgets s \<and> requests (ready s) = requests s @ [data_request]"
    if "tableEl s = Some t" and "\<not> in_container s t"
    using that by (simp add: ready_frame datatable_section_def t c jq_ajax_def file_input_section_frame)
  moreover have "widgets (ready s) = widgets s \<and> requests (ready s) = requests s"
    if "tableEl s = None"
    using that by (simp add: ready_frame datatable_section_def t file_input_section_frame)
  ultimately show ?thesis
    using q by blast
qed

theorem datatable_initialisation_witness:
  "tableEl home_page = Some 7 \<and> in_container home_page 7
   \<and> widgets (ready home_page) = [(7, prerendered_options)] \<and> requests (ready home_page) = []
   \<and> tableEl ajax_page = Some 2 \<and> \<not> in_container ajax_page 2
   \<and> widgets (ready ajax_page) = [] \<and> requests (ready ajax_page) = [data_request]
   \<and> tableEl no_input_page = None
   \<and> widgets (ready no_input_page) = [] \<and> requests (ready no_input_page) = []"
proof -
  have a: "tableEl home_page = Some 7" "in_container home_page 7"
    "widgets home_page = []" "requests home_page = []"
    by code_simp+
  have b: "tableEl ajax_page = Some 2" "\<not> in_container ajax_page 2"
    "widgets ajax_page = []" "requests ajax_page = []"
    by code_simp+
  have c: "tableEl no_input_page = None" "widgets no_input_page = []" "requests no_input_page = []"
    by code_simp+
  show ?thesis
    using datatable_initialisation [of home_page 7] datatable_initialisation [of ajax_page 2]
      datatable_initialisation [of no_input_page 0] a b c
    by simp
qed

text \<open>
  The claim as the specification has it fails on a page whose table sits in a wrapper
  inside the container: no table has the container as its parent and no element has the
  id \<open>csvTable\<close>, so the specification makes no request, but the callback makes one.
\<close>

theorem datatable_initialisation_counterexample:
  "spec_prerendered_table wrapped_page = None
   \<and> getElementById wrapped_page ''csvTable'' = None
   \<and> requests (spec_datatable_section wrapped_page) = []
   \<and> requests (ready wrapped_page) = [data_request]
   \<and> querySelector wrapped_page [[IdSel ''csvTableContainer''], [TagSel ''table'']] = Some 3
   \<and> widgets (ready wrapped_page) = []"
  by code_simp


section \<open>The response to the request\<close>

lemma ajax_success_cases:
  "ajax_success json s =
     (case get_columns json of
        Inl err \<Rightarrow> Inl err
      | Inr None \<Rightarrow> Inr s
      | Inr (Some c) \<Rightarrow>
          if truthy c \<and> get_length c \<noteq> Some (JNum 0)
          then Inr (DataTable (getElementById s ''csvTable'') (server_options c) s)
          else Inr s)"
  by (simp add: ajax_success_def split: sum.splits option.splits)

lemma widgets_grow: "s\<lparr>widgets := widgets s @ [w]\<rparr> = s' \<Longrightarrow> widgets s' \<noteq> widgets s"
  by auto

lemma spec_good_response_columns:
  "spec_good_response (Success json) \<Longrightarrow>
   \<exists>c cs. get_columns json = Inr (Some (JArr (c # cs)))"
proof (cases json)
  case (JObj kvs)
  assume "spec_good_response (Success json)"
  with JObj have "spec_nonempty_array (map_of (rev kvs) ''columns'')"
    by simp
  then obtain c cs where "map_of (rev kvs) ''columns'' = Some (JArr (c # cs))"
    by (cases "map_of (rev kvs) ''columns''" rule: spec_nonempty_array.cases) simp_all
  with JObj show ?thesis
    by simp
qed simp_all

lemma absent_or_empty_columns:
  "columns_absent_or_array json \<Longrightarrow> \<not> spec_good_response (Success json) \<Longrightarrow>
   get_columns json = Inr None \<or> get_columns json = Inr (Some (JArr []))"
proof (cases json)
  case (JObj kvs)
  assume "columns_absent_or_array json" and "\<not> spec_good_response (Success json)"
  with JObj show ?thesis
    by (cases "map_of (rev kvs) ''columns''" rule: spec_nonempty_array.cases) simp_all
qed simp_all

text \<open>
  Claim C3, amended. With \<open>#csvTable\<close> in the document, the widget is initialised on it
  if and only if the request succeeds and the \<open>columns\<close> of the JSON is truthy and has a
  \<open>length\<close> other than 0; for an object whose \<open>columns\<close> is absent or an array that is: if
  and only if \<open>columns\<close> is a non-empty array. A failed request, and an object whose
  \<open>columns\<close> is absent or an empty array, leave the page as it is.
\<close>

theorem ajax_response:
  assumes "getElementById s ''csvTable'' = Some t"
  shows "((\<exists>s'. ajax_complete resp s = Inr s' \<and> widgets s' \<noteq> widgets s) \<longleftrightarrow>
            (\<exists>json c. resp = Success json \<and> get_columns json = Inr (Some c)
               \<and> truthy c \<and> get_length c \<noteq> Some (JNum 0)))
    \<and> (\<forall>json c. resp = Success json \<and> get_columns json = Inr (Some c)
           \<and> truthy c \<and> get_length c \<noteq> Some (JNum 0) \<longrightarrow>
         ajax_complete resp s = Inr (s\<lparr>widgets := widgets s @ [(t, server_options c)]\<rparr>))
    \<and> (\<forall>json. resp = Success json \<and> columns_absent_or_array json \<longrightarrow>
         ((\<exists>s'. ajax_complete resp s = Inr s' \<and> widgets s' \<noteq> widgets s) \<longleftrightarrow> spec_good_response resp))
    \<and> (resp = Failure \<longrightarrow> ajax_complete resp s = Inr s)
    \<and> (\<forall>json. resp = Success json \<and> columns_absent_or_array json \<and> \<not> spec_good_response resp \<longrightarrow>
         ajax_complete resp s = Inr s)"
proof -
  have init: "ajax_complete resp s = Inr (s\<lparr>widgets := widgets s @ [(t, server_options c)]\<rparr>)"
    if "resp = Success json" "get_columns json = Inr (Some c)" "truthy c" "get_length c \<noteq> Some (JNum 0)"
    for json c
    using that assms by (simp add: ajax_complete_def ajax_success_cases DataTable_def)
  have char: "(\<exists>s'. ajax_complete resp s = Inr s' \<and> widgets s' \<noteq> widgets s) \<longleftrightarrow>
      (\<exists>json c. resp = Success json \<and> get_columns json = Inr (Some c)
         \<and> truthy c \<and> get_length c \<noteq> Some (JNum 0))"
  proof
    assume "\<exists>s'. ajax_complete resp s = Inr s' \<and> widgets s' \<noteq> widgets s"
    then obtain s' where s': "ajax_complete resp s = Inr s'" "widgets s' \<noteq> widgets s"
      by blast
    then obtain json where json: "resp = Success json"
      by (cases resp) (auto simp: ajax_complete_def)
    with s' show "\<exists>json c. resp = Success json \<and> get_columns json = Inr (Some c)
         \<and> truthy c \<and> get_length c \<noteq> Some (JNum 0)"
      by (auto simp: ajax_complete_def ajax_success_cases split: sum.splits option.splits if_splits)
  next
    assume "\<exists>json c. resp = Success json \<and> get_columns json = Inr (Some c)
         \<and> truthy c \<and> get_length c \<noteq> Some (JNum 0)"
    then obtain json c where "resp = Success json" "get_columns json = Inr (Some c)"
      "truthy c" "get_length c \<noteq> Some (JNum 0)"
      by blast
    then have "ajax_complete resp s = Inr (s\<lparr>widgets := widgets s @ [(t, server_options c)]\<rparr>)"
      by (rule init)
    then show "\<exists>s'. ajax_complete resp s = Inr s' \<and> widgets s' \<noteq> widgets s"
      by (auto intro: widgets_grow)
  qed
  have unchanged: "ajax_complete resp s = Inr s"
    if "resp = Success json" "columns_absent_or_array json" "\<not> spec_good_response resp" for json
    using absent_or_empty_columns [of json] that
    by (auto simp: ajax_complete_def ajax_success_cases)
  have contract: "(\<exists>s'. ajax_complete resp s = Inr s' \<and> widgets s' \<noteq> widgets s) \<longleftrightarrow> spec_good_response resp"
    if "resp = Success json" "columns_absent_or_array json" for json
  proof (cases "spec_good_response resp")
    case True
    with that(1) obtain c cs where "get_columns json = Inr (Some (JArr (c # cs)))"
      using spec_good_response_columns by blast
    with that(1) have "ajax_complete resp s = Inr (s\<lparr>widgets := widgets s @ [(t, server_options (JArr (c # cs)))]\<rparr>)"
      by (intro init) simp_all
    with True show ?thesis
      by (auto intro: widgets_grow)
  next
    case False
    with that have "ajax_complete resp s = Inr s"
      by (intro unchanged)
    with False show ?thesis
      by simp
  qed
  have failure: "resp = Failure \<Longrightarrow> ajax_complete resp s = Inr s"
    by (simp add: ajax_complete_def)
  from char init contract failure unchanged show ?thesis
    by blast
qed

theorem ajax_response_witness:
  "getElementById ajax_page ''csvTable'' = Some 2
   \<and> ajax_complete (columns_response (JArr [JObj [(''data'', JStr ''id'')]])) ajax_page
       = Inr (ajax_page\<lparr>widgets := [(2, server_options (JArr [JObj [(''data'', JStr ''id'')]]))]\<rparr>)
   \<and> spec_good_response (columns_response (JArr [JObj [(''data'', JStr ''id'')]]))
   \<and> ajax_complete Failure ajax_page = Inr ajax_page
   \<and> columns_absent_or_array (JObj [(''draw'', JNum 1), (''columns'', JArr [])])
   \<and> \<not> spec_good_response (columns_response (JArr []))
   \<and> ajax_complete (columns_response (JArr [])) ajax_page = Inr ajax_page"
proof -
  have a: "getElementById ajax_page ''csvTable'' = Some 2"
    by code_simp
  have w: "widgets ajax_page = []"
    by code_simp
  have b: "get_columns (JObj [(''draw'', JNum 1), (''columns'', JArr [JObj [(''data'', JStr ''id'')]])])
      = Inr (Some (JArr [JObj [(''data'', JStr ''id'')]]))"
    by simp
  show ?thesis
    using ajax_response [OF a, of "columns_response (JArr [JObj [(''data'', JStr ''id'')]])"]
      ajax_response [OF a, of Failure]
      ajax_response [OF a, of "columns_response (JArr [])"] a b w
    by (simp add: columns_response_def)
qed

text \<open>
  The claim as the specification has it fails on a response whose \<open>columns\<close> is a string:
  it is not an array, and the widget is initialised.
\<close>

theorem ajax_response_counterexample:
  "\<not> spec_good_response (columns_response (JStr ''id''))
   \<and> ajax_complete (columns_response (JStr ''id'')) ajax_page
       = Inr (ajax_page\<lparr>widgets := [(2, server_options (JStr ''id''))]\<rparr>)"
proof -
  have "getElementById ajax_page ''csvTable'' = Some 2" and "widgets ajax_page = []"
    by code_simp+
  then show ?thesis
    by (simp add: columns_response_def ajax_complete_def ajax_success_def DataTable_def)
qed

text \<open>
  Claim C7. The widget that the success callback initialises is in server-side mode
  with \<open>/data\<close> as its source, takes its columns from the \<open>columns\<close> of the response, and has
  a page length of 5 with the length menu 5, 10, 20, 50.
\<close>

theorem server_side_options:
  assumes "getElementById s ''csvTable'' = Some t"
    and "get_columns json = Inr (Some c)"
    and "truthy c"
    and "get_length c \<noteq> Some (JNum 0)"
  shows "\<exists>opts. ajax_complete (Success json) s = Inr (s\<lparr>widgets := widgets s @ [(t, opts)]\<rparr>)
    \<and> serverSide opts = Some True
    \<and> ajax_source opts = Some ''/data''
    \<and> columns opts = Some c
    \<and> pageLength opts = 5
    \<and> lengthMenu opts = [5, 10, 20, 50]"
proof -
  have "ajax_complete (Success json) s = Inr (s\<lparr>widgets := widgets s @ [(t, server_options c)]\<rparr>)"
    using assms by (simp add: ajax_complete_def ajax_success_cases DataTable_def)
  then show ?thesis
    by (intro exI [of _ "server_options c"]) (simp add: server_options_def)
qed

theorem server_side_options_witness:
  "getElementById ajax_page ''csvTable'' = Some 2
   \<and> get_columns (JObj [(''columns'', JArr [JStr ''id'', JStr ''name''])])
       = Inr (Some (JArr [JStr ''id'', JStr ''name'']))
   \<and> truthy (JArr [JStr ''id'', JStr ''name''])
   \<and> get_length (JArr [JStr ''id'', JStr ''name'']) \<noteq> Some (JNum 0)
   \<and> (\<exists>opts. ajax_complete (Success (JObj [(''columns'', JArr [JStr ''id'', JStr ''name''])])) ajax_page
         = Inr (ajax_page\<lparr>widgets := widgets ajax_page @ [(2, opts)]\<rparr>)
       \<and> serverSide opts = Some True
       \<and> ajax_source opts = Some ''/data''
       \<and> columns opts = Some (JArr [JStr ''id'', JStr ''name''])
       \<and> pageLength opts = 5
       \<and> lengthMenu opts = [5, 10, 20, 50])"
proof -
  have a: "getElementById ajax_page ''csvTable'' = Some 2"
    by code_simp
  have b: "get_columns (JObj [(''columns'', JArr [JStr ''id'', JStr ''name''])])
      = Inr (Some (JArr [JStr ''id'', JStr ''name'']))"
    by simp
  have c: "truthy (JArr [JStr ''id'', JStr ''name''])"
    by simp
  have d: "get_length (JArr [JStr ''id'', JStr ''name'']) \<noteq> Some (JNum 0)"
    by simp
  show ?thesis
    using server_side_options [OF a b c d] a b c d by blast
qed


section \<open>The action button\<close>

lemma run_timers_style:
  "style (heap (fold (\<lambda>t. run_timer (snd t)) ts s) b) =
     (if ClearTransform b \<in> snd ` set ts then (style (heap s b))(''transform'' := [])
      else style (heap s b))"
proof (induction ts arbitrary: s)
  case Nil
  then show ?case by simp
next
  case (Cons t ts)
  obtain due r where t: "t = (due, ClearTransform r)"
    by (cases t, cases "snd t") auto
  show ?case
    by (cases "r = b") (auto simp: Cons.IH t dom_defs)
qed

lemma run_timers_pending: "timers (fold (\<lambda>t. run_timer (snd t)) ts s) = timers s"
proof (induction ts arbitrary: s)
  case Nil
  then show ?case by simp
next
  case (Cons t ts)
  then show ?case
    by (cases "snd t") (simp add: dom_defs)
qed

lemma elapse_clears:
  assumes "(due, ClearTransform b) \<in> set (timers s)" and "due \<le> clock s + d"
  shows "style (heap (elapse d s) b) = (style (heap s b))(''transform'' := [])"
proof -
  let ?s0 = "s\<lparr>clock := clock s + d, timers := filter (\<lambda>t. \<not> fst t \<le> clock s + d) (timers s)\<rparr>"
  let ?due = "sort_key fst (filter (\<lambda>t. fst t \<le> clock s + d) (timers s))"
  have "(due, ClearTransform b) \<in> set ?due"
    using assms by simp
  then have "ClearTransform b \<in> snd ` set ?due"
    by force
  then have "style (heap (fold (\<lambda>t. run_timer (snd t)) ?due ?s0) b) = (style (heap ?s0 b))(''transform'' := [])"
    by (simp only: run_timers_style if_True)
  moreover have "elapse d s = fold (\<lambda>t. run_timer (snd t)) ?due ?s0"
    by (simp add: elapse_def Let_def)
  ultimately show ?thesis
    by simp
qed

text \<open>
  Claim C8. The callback attaches the \<open>click\<close> listener to the element that matches
  \<open>.btn.large\<close>. A click sets the \<open>transform\<close> of the inline style of that element to
  \<open>scale(0.98)\<close> and schedules a timer 150 milliseconds ahead; the timer is still pending
  before that time; after 150 milliseconds the \<open>transform\<close> is the empty string. Neither
  the listener nor the timer changes another property of the style.
\<close>

theorem button_press:
  "(querySelector s [[ClassSel ''btn'', ClassSel ''large'']] = Some b \<longrightarrow>
      ClickListener b \<in> set (listeners (ready s)))
   \<and> style (heap (click_handler b e s) b) = (style (heap s b))(''transform'' := ''scale(0.98)'')
   \<and> timers (click_handler b e s) = timers s @ [(clock s + 150, ClearTransform b)]
   \<and> (d < 150 \<longrightarrow> (clock s + 150, ClearTransform b) \<in> set (timers (elapse d (click_handler b e s))))
   \<and> style (heap (elapse 150 (click_handler b e s)) b) = (style (heap s b))(''transform'' := [])
   \<and> style (heap (run_timer (ClearTransform b) s) b) = (style (heap s b))(''transform'' := [])"
proof -
  have attach: "ClickListener b \<in> set (listeners (ready s))"
    if "querySelector s [[ClassSel ''btn'', ClassSel ''large'']] = Some b"
    using that by (simp add: ready_listeners)
  have click: "style (heap (click_handler b e s) b) = (style (heap s b))(''transform'' := ''scale(0.98)'')"
    by (simp add: click_handler_def dom_defs)
  have timer: "timers (click_handler b e s) = timers s @ [(clock s + 150, ClearTransform b)]"
    and now: "clock (click_handler b e s) = clock s"
    by (simp_all add: click_handler_def dom_defs)
  have pending: "(clock s + 150, ClearTransform b) \<in> set (timers (elapse d (click_handler b e s)))"
    if "d < 150"
    using that by (simp add: elapse_def Let_def run_timers_pending timer now)
  have "(clock s + 150, ClearTransform b) \<in> set (timers (click_handler b e s))"
    and "clock s + 150 \<le> clock (click_handler b e s) + 150"
    by (simp_all add: timer now)
  then have "style (heap (elapse 150 (click_handler b e s)) b) =
      (style (heap (click_handler b e s) b))(''transform'' := [])"
    by (rule elapse_clears)
  then have cleared: "style (heap (elapse 150 (click_handler b e s)) b) = (style (heap s b))(''transform'' := [])"
    by (simp add: click)
  have callback: "style (heap (run_timer (ClearTransform b) s) b) = (style (heap s b))(''transform'' := [])"
    by (simp add: dom_defs)
  from attach click timer pending cleared callback show ?thesis
    by blast
qed

theorem button_press_witness:
  "querySelector home_page [[ClassSel ''btn'', ClassSel ''large'']] = Some 8
   \<and> ClickListener 8 \<in> set (listeners (ready home_page))
   \<and> style (heap (click_handler 8 (click_of 8) (ready home_page)) 8) ''transform'' = ''scale(0.98)''
   \<and> style (heap (click_handler 8 (click_of 8) (ready home_page)) 8) ''background'' = []
   \<and> (100::nat) < 150
   \<and> (150, ClearTransform 8) \<in> set (timers (elapse 100 (click_handler 8 (click_of 8) (ready home_page))))
   \<and> style (heap (elapse 150 (click_handler 8 (click_of 8) (ready home_page))) 8) ''transform'' = []"
proof -
  have a: "querySelector home_page [[ClassSel ''btn'', ClassSel ''large'']] = Some 8"
    by code_simp
  have b: "clock (ready home_page) = 0" "style (heap (ready home_page) 8) ''background'' = []"
    by code_simp+
  show ?thesis
    using button_press [of home_page 8 "click_of 8" 100]
      button_press [of "ready home_page" 8 "click_of 8" 100] a b
    by simp
qed

end
